theory Spec2Isabelle
  imports Main "HOL-Library.Multiset"
begin

section \<open>Python values used by the hub\<close>

text \<open>
  A Python \<open>str\<close> is a sequence of Unicode code points; it is modelled as the list of
  those code points. \<open>ascii\<close> embeds a literal of the source.
\<close>

type_synonym pystr = "nat list"

definition ascii :: "string \<Rightarrow> pystr" where
  "ascii s = map of_char s"

text \<open>
  The exceptions the hub distinguishes. Both handlers of the endpoint and the handler
  of \<open>broadcast\<close> catch class \<open>Exception\<close>; \<open>OtherException\<close> stands for any
  exception of that class that is none of the three named ones: the
  \<open>WebSocketDisconnect\<close> of the transport, the \<open>ValueError\<close> of \<open>list.remove\<close> and
  the \<open>RuntimeError\<close> of a call on a WebSocket in the wrong state. Task cancellation
  is not an \<open>Exception\<close> and belongs to the scheduler; it is outside this sequential
  model.
\<close>

datatype exn = WebSocketDisconnect | ValueError | RuntimeError | OtherException

text \<open>\<open>list.remove(x)\<close>: deletes the first item equal to \<open>x\<close>, raises \<open>ValueError\<close>
  when there is none.\<close>

definition list_remove :: "'a \<Rightarrow> 'a list \<Rightarrow> exn + 'a list" where
  "list_remove x xs = (if x \<in> set xs then Inr (remove1 x xs) else Inl ValueError)"

section \<open>The connection registry\<close>

text \<open>
  \<open>class ConnectionManager\<close>: one field, the list of registered handles. A handle
  \<open>'ws\<close> is a \<open>WebSocket\<close> object; \<open>in\<close> and \<open>remove\<close> compare handles by identity.
\<close>

record 'ws ConnectionManager =
  active_connections :: "'ws list"

text \<open>
  The environment of the hub. \<open>'env\<close> is the state of everything outside the process
  (peers, sockets, the wall clock). \<open>accept\<close> and \<open>send_text\<close> are the awaited
  calls on a handle: each returns the exception it raised (\<open>None\<close> when it returned
  normally) and the next environment state. \<open>localtime\<close> reads the clock.
\<close>

record tm =
  tm_hour :: nat
  tm_min :: nat

record ('ws, 'env) io =
  accept :: "'ws \<Rightarrow> 'env \<Rightarrow> exn option \<times> 'env"
  send_text :: "'ws \<Rightarrow> pystr \<Rightarrow> 'env \<Rightarrow> exn option \<times> 'env"
  localtime :: "'env \<Rightarrow> tm"

text \<open>
  The state the code runs in: the global \<open>manager\<close>, the environment, and two
  histories kept for the statements only: every call of \<open>broadcast\<close> with its
  payload, and every call of \<open>send_text\<close> with its target, text and outcome, oldest
  first. The model is sequential: an awaited call changes the environment and
  returns, and no other task touches the registry while it is suspended.
  \<open>accepted\<close> is the state of the WebSocket objects: the handles whose \<open>accept\<close>
  has returned, oldest first.
\<close>

record ('ws, 'env) world =
  manager :: "'ws ConnectionManager"
  env :: 'env
  broadcasts :: "pystr list"
  attempts :: "('ws \<times> pystr \<times> exn option) list"
  accepted :: "'ws list"

definition ConnectionManager_init :: "'ws ConnectionManager" where
  "ConnectionManager_init = \<lparr>active_connections = []\<rparr>"

text \<open>
  \<open>await websocket.accept()\<close>. Modelled from the library (starlette's
  \<open>WebSocket.accept\<close> and \<open>WebSocket.send\<close>): a WebSocket is in the application state
  \<open>CONNECTING\<close> until its accept message has been sent and never returns to it; the
  accept message of a WebSocket that has left this state is refused with
  \<open>RuntimeError\<close> before anything reaches the transport. Otherwise the handshake is
  the transport's business, \<open>accept\<close> of the environment.
\<close>

definition WebSocket_accept ::
  "('ws, 'env) io \<Rightarrow> 'ws \<Rightarrow> ('ws, 'env) world \<Rightarrow> exn option \<times> ('ws, 'env) world" where
  "WebSocket_accept io websocket w =
     (if websocket \<in> set (accepted w) then (Some RuntimeError, w)
      else (case accept io websocket (env w) of
              (Some e, env') \<Rightarrow> (Some e, w\<lparr>env := env'\<rparr>)
            | (None, env') \<Rightarrow>
                (None, w\<lparr>env := env', accepted := accepted w @ [websocket]\<rparr>)))"

definition connect ::
  "('ws, 'env) io \<Rightarrow> 'ws \<Rightarrow> ('ws, 'env) world \<Rightarrow> exn option \<times> ('ws, 'env) world" where
  "connect io websocket w =
     (case WebSocket_accept io websocket w of
        (Some e, w') \<Rightarrow> (Some e, w')
      | (None, w') \<Rightarrow>
          (None, w'\<lparr>manager := \<lparr>active_connections =
                                   active_connections (manager w') @ [websocket]\<rparr>\<rparr>))"

text \<open>The state at the start of the process: \<open>manager = ConnectionManager()\<close>, no
  WebSocket yet.\<close>

definition start :: "'env \<Rightarrow> ('ws, 'env) world" where
  "start e =
     \<lparr>manager = ConnectionManager_init, env = e, broadcasts = [], attempts = [],
      accepted = []\<rparr>"

definition disconnect :: "'ws \<Rightarrow> 'ws ConnectionManager \<Rightarrow> exn + 'ws ConnectionManager" where
  "disconnect websocket m =
     (if websocket \<in> set (active_connections m)
      then (case list_remove websocket (active_connections m) of
              Inl e \<Rightarrow> Inl e
            | Inr cs \<Rightarrow> Inr \<lparr>active_connections = cs\<rparr>)
      else Inr m)"

text \<open>
  The body of \<open>broadcast\<close>: the \<open>for\<close> loop over the copy \<open>list(self.active_connections)\<close>.
  The first list argument is what is left of the copy; the live list is in the world.
\<close>

fun broadcast_loop ::
  "('ws, 'env) io \<Rightarrow> pystr \<Rightarrow> 'ws list \<Rightarrow> ('ws, 'env) world
     \<Rightarrow> exn option \<times> ('ws, 'env) world" where
  "broadcast_loop io message [] w = (None, w)"
| "broadcast_loop io message (connection # rest) w =
     (case send_text io connection message (env w) of (r, env') \<Rightarrow>
        (let w1 = w\<lparr>env := env', attempts := attempts w @ [(connection, message, r)]\<rparr> in
         case r of
           None \<Rightarrow> broadcast_loop io message rest w1
         | Some e \<Rightarrow>
             (if connection \<in> set (active_connections (manager w1))
              then (case list_remove connection (active_connections (manager w1)) of
                      Inl e' \<Rightarrow> (Some e', w1)
                    | Inr cs \<Rightarrow>
                        broadcast_loop io message rest
                          (w1\<lparr>manager := \<lparr>active_connections = cs\<rparr>\<rparr>))
              else broadcast_loop io message rest w1)))"

definition broadcast ::
  "('ws, 'env) io \<Rightarrow> pystr \<Rightarrow> ('ws, 'env) world \<Rightarrow> exn option \<times> ('ws, 'env) world" where
  "broadcast io message w =
     broadcast_loop io message (active_connections (manager w))
       (w\<lparr>broadcasts := broadcasts w @ [message]\<rparr>)"

section \<open>The wire format\<close>

text \<open>
  \<open>time.strftime("%H:%M")\<close> prints the hour and the minute of the local time, each as
  a decimal number padded with a zero to two digits. Code point 48 is the digit \<open>0\<close>.
\<close>

fun digits10 :: "nat \<Rightarrow> pystr" where
  "digits10 n = (if n < 10 then [48 + n] else digits10 (n div 10) @ [48 + n mod 10])"

declare digits10.simps [simp del]

definition pad2 :: "nat \<Rightarrow> pystr" where
  "pad2 n = (if n < 10 then [48, 48 + n] else digits10 n)"

definition strftime_HM :: "tm \<Rightarrow> pystr" where
  "strftime_HM t = pad2 (tm_hour t) @ ascii '':'' @ pad2 (tm_min t)"

text \<open>
  \<open>json.dumps\<close> with its default arguments, on the values the endpoint gives it: a
  dictionary with string keys whose values are integers or strings, printed in the
  order of insertion between braces, the items joined by a comma and a space, key
  and value by a colon and a space. An integer is
  printed in decimal (code point 45 is the minus sign). A string is printed by
  \<open>encode_basestring_ascii\<close>: between double quotes (code point 34), the printable
  ASCII characters other than the double quote and the backslash (code point 92) as
  they are, every other code point escaped.
\<close>

definition int_repr :: "int \<Rightarrow> pystr" where
  "int_repr i = (if i < 0 then 45 # digits10 (nat (- i)) else digits10 (nat i))"

definition hexdigit :: "nat \<Rightarrow> nat" where
  "hexdigit d = (if d < 10 then 48 + d else 87 + d)"

definition hex4 :: "nat \<Rightarrow> pystr" where
  "hex4 n = [hexdigit (n div 4096 mod 16), hexdigit (n div 256 mod 16),
             hexdigit (n div 16 mod 16), hexdigit (n mod 16)]"

text \<open>
  The escape of one code point: the short escapes of backslash, double quote,
  backspace, form feed, newline, carriage return and tab; backslash, \<open>u\<close> and four
  hexadecimal digits below \<open>0x10000\<close>; a surrogate pair above, whose halves are
  \<open>0xd800 | (n >> 10) & 0x3ff\<close> and \<open>0xdc00 | n & 0x3ff\<close> for
  \<open>n = c - 0x10000\<close> (the low ten bits of both constants are zero, so each \<open>|\<close>
  is a sum).
\<close>

definition escape :: "nat \<Rightarrow> pystr" where
  "escape c =
     (if c = 92 then [92, 92]
      else if c = 34 then [92, 34]
      else if c = 8 then [92, 98]
      else if c = 12 then [92, 102]
      else if c = 10 then [92, 110]
      else if c = 13 then [92, 114]
      else if c = 9 then [92, 116]
      else if c < 0x10000 then [92, 117] @ hex4 c
      else (let n = c - 0x10000 in
            [92, 117] @ hex4 (0xd800 + n div 1024 mod 1024) @
            [92, 117] @ hex4 (0xdc00 + n mod 1024)))"

definition plain :: "nat \<Rightarrow> bool" where
  "plain c \<longleftrightarrow> 32 \<le> c \<and> c \<le> 126 \<and> c \<noteq> 92 \<and> c \<noteq> 34"

definition encode_basestring_ascii :: "pystr \<Rightarrow> pystr" where
  "encode_basestring_ascii s =
     [34] @ concat (map (\<lambda>c. if plain c then [c] else escape c) s) @ [34]"

datatype json_value = JInt int | JStr pystr

fun dumps_value :: "json_value \<Rightarrow> pystr" where
  "dumps_value (JInt i) = int_repr i"
| "dumps_value (JStr s) = encode_basestring_ascii s"

fun join :: "pystr \<Rightarrow> pystr list \<Rightarrow> pystr" where
  "join sep [] = []"
| "join sep [x] = x"
| "join sep (x # y # ys) = x @ sep @ join sep (y # ys)"

definition json_dumps :: "(pystr \<times> json_value) list \<Rightarrow> pystr" where
  "json_dumps d =
     ascii ''{'' @
     join (ascii '', '')
       (map (\<lambda>(k, v). encode_basestring_ascii k @ ascii '': '' @ dumps_value v) d) @
     ascii ''}''"

section \<open>The message router\<close>

text \<open>
  What one \<open>await websocket.receive_text()\<close> gives: a text frame, or an exception.
  The peer's side of a session is the list of these outcomes, in order.
\<close>

datatype recv = Text pystr | Raises exn

text \<open>The body of the \<open>while True\<close> loop after a frame has been received.\<close>

definition loop_body ::
  "('ws, 'env) io \<Rightarrow> int \<Rightarrow> pystr \<Rightarrow> ('ws, 'env) world \<Rightarrow> exn option \<times> ('ws, 'env) world" where
  "loop_body io client_id data w =
     (if data = ascii ''__ping__'' then (None, w)
      else (let timestamp = strftime_HM (localtime io (env w));
                payload = json_dumps
                  [(ascii ''client_id'', JInt client_id),
                   (ascii ''timestamp'', JStr timestamp),
                   (ascii ''message'', JStr data)]
            in broadcast io payload w))"

text \<open>
  The \<open>while True\<close> loop, run on the outcomes of \<open>receive_text\<close> that have arrived. It
  has no exit of its own: it ends when an exception leaves it (\<open>Some e\<close>); \<open>None\<close>
  says that every outcome has been handled and the task is suspended in
  \<open>receive_text\<close>.
\<close>

fun receive_loop ::
  "('ws, 'env) io \<Rightarrow> int \<Rightarrow> recv list \<Rightarrow> ('ws, 'env) world
     \<Rightarrow> exn option \<times> ('ws, 'env) world" where
  "receive_loop io client_id [] w = (None, w)"
| "receive_loop io client_id (Raises e # rest) w = (Some e, w)"
| "receive_loop io client_id (Text data # rest) w =
     (case loop_body io client_id data w of
        (Some e, w') \<Rightarrow> (Some e, w')
      | (None, w') \<Rightarrow> receive_loop io client_id rest w')"

text \<open>
  How a call of the endpoint stands: suspended in its loop, returned, or left by an
  exception that no handler caught.
\<close>

datatype task = Active | Returned | Raised exn

text \<open>The \<open>try\<close> statement of the endpoint with its two handlers.\<close>

definition serve ::
  "('ws, 'env) io \<Rightarrow> 'ws \<Rightarrow> int \<Rightarrow> recv list \<Rightarrow> ('ws, 'env) world
     \<Rightarrow> task \<times> ('ws, 'env) world" where
  "serve io websocket client_id inbound w =
     (case receive_loop io client_id inbound w of
        (None, w') \<Rightarrow> (Active, w')
      | (Some e, w') \<Rightarrow>
          (if e = WebSocketDisconnect
           then (case disconnect websocket (manager w') of
                   Inl e' \<Rightarrow> (Raised e', w')
                 | Inr m \<Rightarrow> (Returned, w'\<lparr>manager := m\<rparr>))
           else (case disconnect websocket (manager w') of
                   Inl e' \<Rightarrow> (Raised e', w')
                 | Inr m \<Rightarrow> (Returned, w'\<lparr>manager := m\<rparr>))))"

definition websocket_endpoint ::
  "('ws, 'env) io \<Rightarrow> 'ws \<Rightarrow> int \<Rightarrow> recv list \<Rightarrow> ('ws, 'env) world
     \<Rightarrow> task \<times> ('ws, 'env) world" where
  "websocket_endpoint io websocket client_id inbound w =
     (case connect io websocket w of
        (Some e, w') \<Rightarrow> (Raised e, w')
      | (None, w') \<Rightarrow> serve io websocket client_id inbound w')"

section \<open>Observations of a run\<close>

text \<open>
  The functions of this section are not in the source: the statements below use them
  to say what a call did. \<open>deliveries\<close> is the plain fan-out, one \<open>send_text\<close> per
  target in order, each from the environment the previous one left, whatever the
  outcomes; \<open>env_after\<close> is the environment it leaves.
\<close>

fun deliveries ::
  "('ws, 'env) io \<Rightarrow> pystr \<Rightarrow> 'ws list \<Rightarrow> 'env \<Rightarrow> ('ws \<times> pystr \<times> exn option) list" where
  "deliveries io message [] e = []"
| "deliveries io message (c # cs) e =
     (case send_text io c message e of
        (r, e') \<Rightarrow> (c, message, r) # deliveries io message cs e')"

fun env_after :: "('ws, 'env) io \<Rightarrow> pystr \<Rightarrow> 'ws list \<Rightarrow> 'env \<Rightarrow> 'env" where
  "env_after io message [] e = e"
| "env_after io message (c # cs) e =
     env_after io message cs (snd (send_text io c message e))"

text \<open>The targets of the attempts that raised, and the attempts a step added to the
  history.\<close>

definition failed_targets :: "('ws \<times> pystr \<times> exn option) list \<Rightarrow> 'ws list" where
  "failed_targets as = map fst (filter (\<lambda>a. snd (snd a) \<noteq> None) as)"

definition new_attempts ::
  "('ws, 'env) world \<Rightarrow> ('ws, 'env) world \<Rightarrow> ('ws \<times> pystr \<times> exn option) list" where
  "new_attempts w w' = drop (length (attempts w)) (attempts w')"

text \<open>The chat message of a frame, as the loop body builds it.\<close>

definition chat_message :: "int \<Rightarrow> tm \<Rightarrow> pystr \<Rightarrow> pystr" where
  "chat_message client_id t data =
     json_dumps [(ascii ''client_id'', JInt client_id),
                 (ascii ''timestamp'', JStr (strftime_HM t)),
                 (ascii ''message'', JStr data)]"

text \<open>
  A sequence of registry operations, for the invariant of the registry. \<open>Add\<close> is
  \<open>connect\<close>, \<open>Remove\<close> is \<open>disconnect\<close>, \<open>Broadcast\<close> is \<open>broadcast\<close>; an exception
  of an operation ends that operation, and the sequence goes on from the state it
  left.
\<close>

datatype 'ws op = Add 'ws | Remove 'ws | Broadcast pystr

fun apply_op :: "('ws, 'env) io \<Rightarrow> 'ws op \<Rightarrow> ('ws, 'env) world \<Rightarrow> ('ws, 'env) world" where
  "apply_op io (Add c) w = snd (connect io c w)"
| "apply_op io (Remove c) w =
     (case disconnect c (manager w) of Inl e \<Rightarrow> w | Inr m \<Rightarrow> w\<lparr>manager := m\<rparr>)"
| "apply_op io (Broadcast p) w = snd (broadcast io p w)"

fun run :: "('ws, 'env) io \<Rightarrow> 'ws op list \<Rightarrow> ('ws, 'env) world \<Rightarrow> ('ws, 'env) world" where
  "run io [] w = w"
| "run io (x # xs) w = run io xs (apply_op io x w)"

text \<open>
  The registry is in order when no handle is registered twice and every registered
  handle has been accepted.
\<close>

definition registry_ok :: "('ws, 'env) world \<Rightarrow> bool" where
  "registry_ok w \<longleftrightarrow>
     distinct (active_connections (manager w))
     \<and> set (active_connections (manager w)) \<subseteq> set (accepted w)"

text \<open>
  A concrete environment for the examples: handles are numbers; the environment is
  the list of handles whose transport is closed and the frames written to the
  others, oldest first. The handshake succeeds, \<open>send_text\<close> raises on a closed
  transport and writes the frame otherwise, and the clock stands at 09:05. \<open>hub\<close>
  is a state with the given members, all accepted, and nothing sent yet.
\<close>

record peers =
  closed :: "nat list"
  delivered :: "(nat \<times> pystr) list"

definition closed_io :: "(nat, peers) io" where
  "closed_io =
     \<lparr>accept = (\<lambda>c e. (None, e)),
      send_text = (\<lambda>c m e. if c \<in> set (closed e) then (Some OtherException, e)
                              else (None, e\<lparr>delivered := delivered e @ [(c, m)]\<rparr>)),
      localtime = (\<lambda>e. \<lparr>tm_hour = 9, tm_min = 5\<rparr>)\<rparr>"

definition hub :: "nat list \<Rightarrow> nat list \<Rightarrow> (nat, peers) world" where
  "hub cs cl =
     \<lparr>manager = \<lparr>active_connections = cs\<rparr>, env = \<lparr>closed = cl, delivered = []\<rparr>,
      broadcasts = [], attempts = [], accepted = cs\<rparr>"

section \<open>Reading the wire format back\<close>

text \<open>
  What a receiver makes of the payload. These functions are not in the source: they
  read a JSON string literal and a decimal integer the way a JSON parser does, and the
  statements use them to say that the fields of a chat message carry the identifier
  and the frame unchanged. \<open>scanstring\<close> starts behind the opening quote and returns
  the decoded string with the text behind the closing quote; \<open>None\<close> is a syntax
  error. The escape of a high surrogate followed by the escape of a low surrogate is
  one code point above \<open>0xffff\<close>.
\<close>

definition unhex :: "nat \<Rightarrow> nat option" where
  "unhex c = (if 48 \<le> c \<and> c \<le> 57 then Some (c - 48)
              else if 97 \<le> c \<and> c \<le> 102 then Some (c - 87)
              else if 65 \<le> c \<and> c \<le> 70 then Some (c - 55)
              else None)"

definition unhex4 :: "nat \<Rightarrow> nat \<Rightarrow> nat \<Rightarrow> nat \<Rightarrow> nat option" where
  "unhex4 a b c d =
     (case (unhex a, unhex b, unhex c, unhex d) of
        (Some x, Some y, Some z, Some t) \<Rightarrow> Some (((x * 16 + y) * 16 + z) * 16 + t)
      | _ \<Rightarrow> None)"

definition backslash :: "nat \<Rightarrow> nat option" where
  "backslash c =
     (if c = 34 then Some 34 else if c = 92 then Some 92 else if c = 47 then Some 47
      else if c = 98 then Some 8 else if c = 102 then Some 12 else if c = 110 then Some 10
      else if c = 114 then Some 13 else if c = 116 then Some 9 else None)"

definition cons_char :: "nat \<Rightarrow> (pystr \<times> pystr) option \<Rightarrow> (pystr \<times> pystr) option" where
  "cons_char c r = (case r of None \<Rightarrow> None | Some (s, rest) \<Rightarrow> Some (c # s, rest))"

fun scanstring :: "pystr \<Rightarrow> (pystr \<times> pystr) option" where
  "scanstring [] = None"
| "scanstring (c # s) =
     (if c = 34 then Some ([], s)
      else if c = 92 then
        (case s of
           [] \<Rightarrow> None
         | esc # s1 \<Rightarrow>
             (if esc = 117 then
                (case s1 of
                   x1 # x2 # x3 # x4 # s2 \<Rightarrow>
                     (case unhex4 x1 x2 x3 x4 of
                        None \<Rightarrow> None
                      | Some uni \<Rightarrow>
                          (if 0xd800 \<le> uni \<and> uni \<le> 0xdbff then
                             (case s2 of
                                b # u # y1 # y2 # y3 # y4 # s3 \<Rightarrow>
                                  (case (if b = 92 \<and> u = 117 then unhex4 y1 y2 y3 y4 else None) of
                                     None \<Rightarrow> cons_char uni (scanstring s2)
                                   | Some uni2 \<Rightarrow>
                                       (if 0xdc00 \<le> uni2 \<and> uni2 \<le> 0xdfff
                                        then cons_char
                                               (0x10000 + (uni - 0xd800) * 1024 + (uni2 - 0xdc00))
                                               (scanstring s3)
                                        else cons_char uni (scanstring s2)))
                              | _ \<Rightarrow> cons_char uni (scanstring s2))
                           else cons_char uni (scanstring s2)))
                 | _ \<Rightarrow> None)
              else (case backslash esc of
                      None \<Rightarrow> None
                    | Some ch \<Rightarrow> cons_char ch (scanstring s1))))
      else if c < 32 then None
      else cons_char c (scanstring s))"

text \<open>
  A Unicode scalar value: a code point that is no surrogate. The text of a WebSocket
  text frame is decoded from UTF-8 and holds nothing else. \<open>encode1\<close> is the
  replacement of one code point in \<open>encode_basestring_ascii\<close>.
\<close>

definition scalar :: "nat \<Rightarrow> bool" where
  "scalar c \<longleftrightarrow> c < 0xd800 \<or> (0xdfff < c \<and> c < 0x110000)"

definition encode1 :: "nat \<Rightarrow> pystr" where
  "encode1 c = (if plain c then [c] else escape c)"

definition read_decimal :: "pystr \<Rightarrow> nat" where
  "read_decimal s = foldl (\<lambda>a c. 10 * a + (c - 48)) 0 s"

definition int_of_repr :: "pystr \<Rightarrow> int" where
  "int_of_repr s =
     (case s of
        [] \<Rightarrow> 0
      | c # r \<Rightarrow> if c = 45 then - int (read_decimal r) else int (read_decimal s))"

section \<open>Facts about the registry operations\<close>

lemma list_remove_member: "x \<in> set xs \<Longrightarrow> list_remove x xs = Inr (remove1 x xs)"
  by (simp add: list_remove_def)

lemma remove1_absent: "x \<notin> set xs \<Longrightarrow> remove1 x xs = xs"
  by (simp add: remove1_idem)

lemma broadcast_loop_eq:
  "broadcast_loop io message cs w =
     (None, w\<lparr>env := env_after io message cs (env w),
               attempts := attempts w @ deliveries io message cs (env w),
               manager := \<lparr>active_connections =
                  fold remove1 (failed_targets (deliveries io message cs (env w)))
                    (active_connections (manager w))\<rparr>\<rparr>)"
proof (induction cs arbitrary: w)
  case Nil
  show ?case by (simp add: failed_targets_def)
next
  case (Cons c cs)
  obtain r e' where s: "send_text io c message (env w) = (r, e')" by (cases "send_text io c message (env w)")
  show ?case
  proof (cases r)
    case None
    with s show ?thesis by (simp add: Cons.IH failed_targets_def)
  next
    case (Some a)
    with s show ?thesis
      by (cases "c \<in> set (active_connections (manager w))")
         (simp_all add: Cons.IH failed_targets_def list_remove_member remove1_absent)
  qed
qed

lemma broadcast_eq:
  "broadcast io message w =
     (None, w\<lparr>env := env_after io message (active_connections (manager w)) (env w),
               broadcasts := broadcasts w @ [message],
               attempts := attempts w @ deliveries io message (active_connections (manager w)) (env w),
               manager := \<lparr>active_connections =
                  fold remove1 (failed_targets (deliveries io message (active_connections (manager w)) (env w)))
                    (active_connections (manager w))\<rparr>\<rparr>)"
  by (simp add: broadcast_def broadcast_loop_eq)

lemma deliveries_targets: "map fst (deliveries io message cs e) = cs"
  by (induction cs arbitrary: e) (auto split: prod.splits)

lemma deliveries_payload: "a \<in> set (deliveries io message cs e) \<Longrightarrow> fst (snd a) = message"
  by (induction cs arbitrary: e) (auto split: prod.splits)

lemma deliveries_length: "length (deliveries io message cs e) = length cs"
  by (induction cs arbitrary: e) (auto split: prod.splits)

lemma env_after_fold:
  "env_after io message cs e = fold (\<lambda>c e. snd (send_text io c message e)) cs e"
  by (induction cs arbitrary: e) simp_all

lemma deliveries_nth:
  "i < length cs \<Longrightarrow>
   deliveries io message cs e ! i =
     (cs ! i, message,
      fst (send_text io (cs ! i) message (env_after io message (take i cs) e)))"
proof (induction cs arbitrary: i e)
  case Nil
  then show ?case by simp
next
  case (Cons c cs)
  show ?case
  proof (cases i)
    case 0
    then show ?thesis by (simp split: prod.splits)
  next
    case (Suc j)
    with Cons.prems have "j < length cs" by simp
    from Cons.IH [OF this, of "snd (send_text io c message e)"] Suc
    show ?thesis by (cases "send_text io c message e") simp
  qed
qed

lemma mset_fold_remove1: "mset (fold remove1 xs l) = mset l - mset xs"
  by (induction xs arbitrary: l) auto

lemma failed_targets_subset: "mset (failed_targets (deliveries io message cs e)) \<subseteq># mset cs"
proof -
  have "mset (failed_targets (deliveries io message cs e)) \<subseteq># mset (map fst (deliveries io message cs e))"
    unfolding failed_targets_def mset_map mset_filter
    by (rule image_mset_subseteq_mono) (rule multiset_filter_subset)
  then show ?thesis by (simp only: deliveries_targets)
qed

lemma fold_remove1_distinct:
  "distinct l \<Longrightarrow> fold remove1 xs l = filter (\<lambda>c. c \<notin> set xs) l"
proof (induction xs arbitrary: l)
  case Nil
  show ?case by simp
next
  case (Cons x xs)
  have "remove1 x l = filter (\<lambda>c. c \<noteq> x) l"
    using Cons.prems by (simp add: distinct_remove1_removeAll removeAll_filter_not_eq) metis
  then show ?case using Cons by (auto intro: filter_cong)
qed

lemma new_attempts_append: "attempts w' = attempts w @ xs \<Longrightarrow> new_attempts w w' = xs"
  by (simp add: new_attempts_def)

lemma no_failed_targets: "(\<forall>a\<in>set as. snd (snd a) = None) \<Longrightarrow> failed_targets as = []"
  by (simp add: failed_targets_def)

lemma closed_io_simps:
  "accept closed_io c e = (None, e)"
  "send_text closed_io c m e =
     (if c \<in> set (closed e) then (Some OtherException, e)
      else (None, e\<lparr>delivered := delivered e @ [(c, m)]\<rparr>))"
  "localtime closed_io e = \<lparr>tm_hour = 9, tm_min = 5\<rparr>"
  by (simp_all add: closed_io_def)

lemma hub_simps:
  "manager (hub cs cl) = \<lparr>active_connections = cs\<rparr>"
  "env (hub cs cl) = \<lparr>closed = cl, delivered = []\<rparr>"
  "broadcasts (hub cs cl) = []"
  "attempts (hub cs cl) = []"
  "accepted (hub cs cl) = cs"
  by (simp_all add: hub_def)

lemma count_list_distinct: "distinct xs \<Longrightarrow> x \<in> set xs \<Longrightarrow> count_list xs x = 1"
  by (induction xs) auto

lemma count_list_remove1:
  "count_list (remove1 c cs) d = (if d = c then count_list cs c - 1 else count_list cs d)"
  by (induction cs) auto

lemma length_remove1_member: "c \<in> set cs \<Longrightarrow> Suc (length (remove1 c cs)) = length cs"
  by (induction cs) auto

lemma manager_eq: "\<lparr>active_connections = active_connections (m :: 'ws ConnectionManager)\<rparr> = m"
  by simp

lemma disconnect_eq:
  "disconnect c m = Inr \<lparr>active_connections = remove1 c (active_connections m)\<rparr>"
  by (simp add: disconnect_def list_remove_member remove1_absent)

lemma count_list_fold_remove1:
  "c \<notin> set xs \<Longrightarrow> count_list (fold remove1 xs l) c = count_list l c"
  by (induction xs arbitrary: l) (auto simp: count_list_remove1)

lemma set_fold_remove1: "set (fold remove1 xs l) \<subseteq> set l"
proof (induction xs arbitrary: l)
  case Nil
  show ?case by simp
next
  case (Cons x xs)
  have "set (fold remove1 xs (remove1 x l)) \<subseteq> set (remove1 x l)" by (rule Cons.IH)
  also have "\<dots> \<subseteq> set l" by (rule set_remove1_subset)
  finally show ?case by simp
qed

lemma connect_eq:
  "connect io c w =
     (if c \<in> set (accepted w) then (Some RuntimeError, w)
      else (case accept io c (env w) of
              (Some e, env') \<Rightarrow> (Some e, w\<lparr>env := env'\<rparr>)
            | (None, env') \<Rightarrow>
                (None, w\<lparr>env := env', accepted := accepted w @ [c],
                          manager := \<lparr>active_connections =
                                        active_connections (manager w) @ [c]\<rparr>\<rparr>)))"
  by (simp add: connect_def WebSocket_accept_def split: prod.splits option.splits)

lemma connect_again:
  assumes "fst (connect io c w) = None"
  shows "connect io c (snd (connect io c w)) = (Some RuntimeError, snd (connect io c w))"
proof -
  have "c \<in> set (accepted (snd (connect io c w)))"
    using assms by (auto simp: connect_eq split: if_splits prod.splits option.splits)
  then show ?thesis by (subst connect_eq) simp
qed

lemma distinct_fold_remove1: "distinct l \<Longrightarrow> distinct (fold remove1 xs l)"
  by (induction xs arbitrary: l) simp_all

lemma broadcast_registry:
  "active_connections (manager (snd (broadcast io p w))) =
     fold remove1 (failed_targets (deliveries io p (active_connections (manager w)) (env w)))
       (active_connections (manager w))"
  by (simp add: broadcast_eq)

lemma start_ok: "registry_ok (start e)"
  by (simp add: registry_ok_def start_def ConnectionManager_init_def)

lemma connect_ok: "registry_ok w \<Longrightarrow> registry_ok (snd (connect io c w))"
  by (auto simp: registry_ok_def connect_eq split: prod.splits option.splits)

lemma disconnect_ok:
  "registry_ok w \<Longrightarrow>
   registry_ok (w\<lparr>manager := \<lparr>active_connections =
      remove1 c (active_connections (manager w))\<rparr>\<rparr>)"
  using set_remove1_subset [of c "active_connections (manager w)"]
  by (auto simp: registry_ok_def)

lemma broadcast_ok: "registry_ok w \<Longrightarrow> registry_ok (snd (broadcast io p w))"
  using set_fold_remove1 [of "failed_targets
      (deliveries io p (active_connections (manager w)) (env w))" "active_connections (manager w)"]
  by (auto simp: registry_ok_def broadcast_eq distinct_fold_remove1)

lemma apply_op_ok: "registry_ok w \<Longrightarrow> registry_ok (apply_op io x w)"
  by (cases x) (simp_all add: connect_ok broadcast_ok disconnect_ok disconnect_eq)

lemma run_ok: "registry_ok w \<Longrightarrow> registry_ok (run io ops w)"
  by (induction ops arbitrary: w) (simp_all add: apply_op_ok)

lemma run_append: "run io (xs @ ys) w = run io ys (run io xs w)"
  by (induction xs arbitrary: w) simp_all

lemma count_list_le_1: "distinct xs \<Longrightarrow> count_list xs x \<le> 1"
  by (induction xs) auto

section \<open>Facts about the wire format\<close>

lemma scan_quote: "scanstring (34 # s) = Some ([], s)"
  by simp

lemma scan_plain: "plain c \<Longrightarrow> scanstring (c # s) = cons_char c (scanstring s)"
  by (simp add: plain_def)

lemma scan_short:
  "backslash esc = Some ch \<Longrightarrow> esc \<noteq> 117 \<Longrightarrow>
   scanstring (92 # esc # s) = cons_char ch (scanstring s)"
  by simp

lemma scan_u:
  "unhex4 x1 x2 x3 x4 = Some uni \<Longrightarrow> \<not> (0xd800 \<le> uni \<and> uni \<le> 0xdbff) \<Longrightarrow>
   scanstring (92 # 117 # x1 # x2 # x3 # x4 # s) = cons_char uni (scanstring s)"
  by auto

lemma scan_pair:
  "unhex4 x1 x2 x3 x4 = Some uni \<Longrightarrow> 0xd800 \<le> uni \<Longrightarrow> uni \<le> 0xdbff \<Longrightarrow>
   unhex4 y1 y2 y3 y4 = Some uni2 \<Longrightarrow> 0xdc00 \<le> uni2 \<Longrightarrow> uni2 \<le> 0xdfff \<Longrightarrow>
   scanstring (92 # 117 # x1 # x2 # x3 # x4 # 92 # 117 # y1 # y2 # y3 # y4 # s) =
     cons_char (0x10000 + (uni - 0xd800) * 1024 + (uni2 - 0xdc00)) (scanstring s)"
  by simp

declare scanstring.simps [simp del]

lemma unhex_hexdigit: "d < 16 \<Longrightarrow> unhex (hexdigit d) = Some d"
  by (simp add: unhex_def hexdigit_def)

lemma unhex4_digits:
  "x < 16 \<Longrightarrow> y < 16 \<Longrightarrow> z < 16 \<Longrightarrow> t < 16 \<Longrightarrow>
   unhex4 (hexdigit x) (hexdigit y) (hexdigit z) (hexdigit t)
     = Some (((x * 16 + y) * 16 + z) * 16 + t)"
  by (simp add: unhex4_def unhex_hexdigit)

lemma hex_digits_sum:
  assumes "(n::nat) < 65536"
  shows "((n div 4096 mod 16 * 16 + n div 256 mod 16) * 16 + n div 16 mod 16) * 16 + n mod 16 = n"
proof -
  have "n div 4096 < 16" using assms by (intro less_mult_imp_div_less) simp
  then have a: "n div 4096 mod 16 = n div 4096" by simp
  have b: "n div 4096 = n div 256 div 16" by (simp add: div_mult2_eq)
  have c: "n div 256 = n div 16 div 16" by (simp add: div_mult2_eq)
  have "n div 4096 * 16 + n div 256 mod 16 = n div 256" unfolding b by simp
  moreover have "n div 256 * 16 + n div 16 mod 16 = n div 16" unfolding c by simp
  ultimately show ?thesis unfolding a by simp
qed

lemma unhex4_hex4:
  assumes "n < 65536"
  shows "unhex4 (hexdigit (n div 4096 mod 16)) (hexdigit (n div 256 mod 16))
           (hexdigit (n div 16 mod 16)) (hexdigit (n mod 16)) = Some n"
proof -
  have "unhex4 (hexdigit (n div 4096 mod 16)) (hexdigit (n div 256 mod 16))
           (hexdigit (n div 16 mod 16)) (hexdigit (n mod 16))
        = Some (((n div 4096 mod 16 * 16 + n div 256 mod 16) * 16 + n div 16 mod 16) * 16
                 + n mod 16)"
    by (rule unhex4_digits) simp_all
  then show ?thesis by (simp only: hex_digits_sum [OF assms])
qed

lemma scan_hex4:
  assumes "n < 65536" and "\<not> (0xd800 \<le> n \<and> n \<le> 0xdbff)"
  shows "scanstring ([92, 117] @ hex4 n @ s) = cons_char n (scanstring s)"
  unfolding hex4_def using scan_u [OF unhex4_hex4 [OF assms(1)] assms(2)] by simp

lemma scan_hex4_pair:
  assumes "n < 0x100000"
  shows "scanstring ([92, 117] @ hex4 (0xd800 + n div 1024 mod 1024) @
                     [92, 117] @ hex4 (0xdc00 + n mod 1024) @ s)
           = cons_char (0x10000 + n) (scanstring s)"
proof -
  let ?hi = "0xd800 + n div 1024 mod 1024" and ?lo = "0xdc00 + n mod 1024"
  have "n div 1024 < 1024" using assms by (intro less_mult_imp_div_less) simp
  then have d: "n div 1024 mod 1024 = n div 1024" by simp
  have hi: "?hi < 65536" "0xd800 \<le> ?hi" "?hi \<le> 0xdbff" by simp_all
  have lo: "?lo < 65536" "0xdc00 \<le> ?lo" "?lo \<le> 0xdfff" by simp_all
  have v: "0x10000 + (?hi - 0xd800) * 1024 + (?lo - 0xdc00) = 0x10000 + n"
    unfolding d by simp
  show ?thesis
    unfolding hex4_def
    using scan_pair [OF unhex4_hex4 [OF hi(1)] hi(2) hi(3) unhex4_hex4 [OF lo(1)] lo(2) lo(3), of s]
    unfolding v by simp
qed

lemma scan_encode1:
  assumes "scalar c"
  shows "scanstring (encode1 c @ s) = cons_char c (scanstring s)"
proof (cases "plain c")
  case True
  then show ?thesis by (simp add: encode1_def scan_plain)
next
  case False
  note np = this
  consider "c = 92" | "c = 34" | "c = 8" | "c = 12" | "c = 10" | "c = 13" | "c = 9"
    | "c \<notin> {92, 34, 8, 12, 10, 13, 9}" "c < 0x10000"
    | "c \<notin> {92, 34, 8, 12, 10, 13, 9}" "0x10000 \<le> c"
    by fastforce
  then show ?thesis
  proof cases
    case 8
    have "\<not> (0xd800 \<le> c \<and> c \<le> 0xdbff)" using assms unfolding scalar_def by arith
    with 8 np show ?thesis by (simp add: encode1_def escape_def scan_hex4 del: append.simps)
  next
    case 9
    have "c - 0x10000 < 0x100000" using assms 9 by (simp add: scalar_def)
    from scan_hex4_pair [OF this, of s] 9 np show ?thesis
      by (simp add: encode1_def escape_def Let_def del: append.simps)
  qed (simp_all add: encode1_def plain_def escape_def scan_short backslash_def)
qed

lemma scan_body:
  "\<forall>c\<in>set s. scalar c \<Longrightarrow>
   scanstring (concat (map encode1 s) @ 34 # rest) = Some (s, rest)"
proof (induction s)
  case Nil
  show ?case by (simp add: scan_quote)
next
  case (Cons c s)
  then show ?case by (simp add: scan_encode1 cons_char_def)
qed

lemma scan_encoded:
  "\<forall>c\<in>set s. scalar c \<Longrightarrow>
   scanstring (tl (encode_basestring_ascii s) @ rest) = Some (s, rest)"
  using scan_body [of s rest] by (simp add: encode_basestring_ascii_def encode1_def [abs_def])

lemma digits10_digit: "c \<in> set (digits10 n) \<Longrightarrow> 48 \<le> c \<and> c \<le> 57"
proof (induction n rule: digits10.induct)
  case (1 n)
  show ?case
  proof (cases "n < 10")
    case True
    with "1.prems" show ?thesis by (simp add: digits10.simps [of n])
  next
    case False
    with "1.prems" "1.IH" show ?thesis
      by (auto simp: digits10.simps [of n])
  qed
qed

lemma digits10_not_empty: "digits10 n \<noteq> []"
  by (subst digits10.simps) simp

lemma read_digits10: "read_decimal (digits10 n) = n"
proof (induction n rule: digits10.induct)
  case (1 n)
  show ?case
  proof (cases "n < 10")
    case True
    then show ?thesis by (simp add: digits10.simps [of n] read_decimal_def)
  next
    case False
    with "1.IH" have "read_decimal (digits10 (n div 10)) = n div 10" by simp
    with False show ?thesis
      by (simp add: digits10.simps [of n] read_decimal_def)
  qed
qed

lemma int_of_repr_int_repr: "int_of_repr (int_repr i) = i"
proof (cases "i < 0")
  case True
  then show ?thesis by (simp add: int_repr_def int_of_repr_def read_digits10)
next
  case False
  obtain c r where d: "digits10 (nat i) = c # r"
    using digits10_not_empty [of "nat i"] by (cases "digits10 (nat i)") auto
  then have "c \<in> set (digits10 (nat i))" by simp
  then have "c \<noteq> 45" using digits10_digit by fastforce
  with False d read_digits10 [of "nat i"] show ?thesis
    by (simp add: int_repr_def int_of_repr_def)
qed

lemma pad2_two_digits: "n < 100 \<Longrightarrow> pad2 n = [48 + n div 10, 48 + n mod 10]"
proof (cases "n < 10")
  case True
  then show ?thesis by (simp add: pad2_def)
next
  case False
  assume "n < 100"
  then have "n div 10 < 10" by (intro less_mult_imp_div_less) simp
  with False show ?thesis
    by (simp add: pad2_def digits10.simps [of n] digits10.simps [of "n div 10"])
qed

lemma pad2_plain: "c \<in> set (pad2 n) \<Longrightarrow> plain c"
  using digits10_digit [of c n] by (auto simp: pad2_def plain_def split: if_splits)

lemma strftime_plain: "c \<in> set (strftime_HM t) \<Longrightarrow> plain c"
  by (auto simp: strftime_HM_def ascii_def dest: pad2_plain) (simp add: plain_def)

lemma encode_plain:
  "\<forall>c\<in>set s. plain c \<Longrightarrow> encode_basestring_ascii s = [34] @ s @ [34]"
proof -
  assume "\<forall>c\<in>set s. plain c"
  then have "concat (map (\<lambda>c. if plain c then [c] else escape c) s) = s"
    by (induction s) simp_all
  then show ?thesis by (simp add: encode_basestring_ascii_def)
qed

lemma chat_message_layout:
  "chat_message client_id t data =
     ascii ''{'' @ [34] @ ascii ''client_id'' @ [34] @ ascii '': '' @ int_repr client_id @
     ascii '', '' @ [34] @ ascii ''timestamp'' @ [34] @ ascii '': '' @
       [34] @ strftime_HM t @ [34] @
     ascii '', '' @ [34] @ ascii ''message'' @ [34] @ ascii '': '' @
       encode_basestring_ascii data @ ascii ''}''"
proof -
  have k1: "encode_basestring_ascii (ascii ''client_id'') = [34] @ ascii ''client_id'' @ [34]"
    by (rule encode_plain) (simp add: ascii_def plain_def)
  have k2: "encode_basestring_ascii (ascii ''timestamp'') = [34] @ ascii ''timestamp'' @ [34]"
    by (rule encode_plain) (simp add: ascii_def plain_def)
  have k3: "encode_basestring_ascii (ascii ''message'') = [34] @ ascii ''message'' @ [34]"
    by (rule encode_plain) (simp add: ascii_def plain_def)
  have ts: "encode_basestring_ascii (strftime_HM t) = [34] @ strftime_HM t @ [34]"
    by (rule encode_plain) (simp add: strftime_plain)
  show ?thesis
    by (simp add: chat_message_def json_dumps_def k1 k2 k3 ts)
qed

section \<open>Facts about the router\<close>

lemma loop_body_ping: "loop_body io client_id (ascii ''__ping__'') w = (None, w)"
  by (simp add: loop_body_def)

lemma loop_body_chat:
  "data \<noteq> ascii ''__ping__'' \<Longrightarrow>
   loop_body io client_id data w =
     broadcast io (chat_message client_id (localtime io (env w)) data) w"
  by (simp add: loop_body_def chat_message_def Let_def)

lemma loop_body_no_raise: "fst (loop_body io client_id data w) = None"
  by (cases "data = ascii ''__ping__''") (simp_all add: loop_body_ping loop_body_chat broadcast_eq)

lemma receive_loop_frames:
  "receive_loop io client_id (map Text frames @ rest) w =
     receive_loop io client_id rest (snd (receive_loop io client_id (map Text frames) w))
   \<and> fst (receive_loop io client_id (map Text frames) w) = None"
proof (induction frames arbitrary: w)
  case Nil
  show ?case by simp
next
  case (Cons d ds)
  obtain w' where b: "loop_body io client_id d w = (None, w')"
    using loop_body_no_raise [of io client_id d w] by (cases "loop_body io client_id d w") simp
  show ?case using Cons.IH [of w'] by (simp add: b)
qed

lemma serve_raises:
  "serve io websocket client_id (Raises e # rest) w =
     (Returned, w\<lparr>manager := \<lparr>active_connections =
                      remove1 websocket (active_connections (manager w))\<rparr>\<rparr>)"
  by (simp add: serve_def disconnect_eq)

lemma loop_body_attempts:
  "data \<noteq> ascii ''__ping__'' \<Longrightarrow>
   new_attempts w (snd (loop_body io client_id data w)) =
     deliveries io (chat_message client_id (localtime io (env w)) data)
       (active_connections (manager w)) (env w)"
  by (rule new_attempts_append) (simp add: loop_body_chat broadcast_eq)

lemma deliveries_member:
  "c \<in> set cs \<Longrightarrow> \<exists>r. (c, message, r) \<in> set (deliveries io message cs e)"
proof (induction cs arbitrary: e)
  case Nil
  then show ?case by simp
next
  case (Cons x xs)
  obtain r e' where s: "send_text io x message e = (r, e')"
    by (cases "send_text io x message e")
  show ?case
  proof (cases "c = x")
    case True
    with s show ?thesis by auto
  next
    case False
    with Cons.prems have "c \<in> set xs" by simp
    from Cons.IH [OF this, of e'] s show ?thesis by auto
  qed
qed

lemma first_message:
  assumes "data \<noteq> ascii ''__ping__''"
    and "websocket \<notin> set (accepted w)"
    and "fst (accept io websocket (env w)) = None"
  shows "websocket_endpoint io websocket client_id [Text data] w =
           (Active, snd (broadcast io
              (chat_message client_id (localtime io (snd (accept io websocket (env w)))) data)
              (w\<lparr>env := snd (accept io websocket (env w)),
                  accepted := accepted w @ [websocket],
                  manager := \<lparr>active_connections =
                                active_connections (manager w) @ [websocket]\<rparr>\<rparr>)))"
proof -
  obtain e1 where acc: "accept io websocket (env w) = (None, e1)"
    using assms(3) by (cases "accept io websocket (env w)") simp
  define w1 where "w1 = w\<lparr>env := e1, accepted := accepted w @ [websocket],
      manager := \<lparr>active_connections = active_connections (manager w) @ [websocket]\<rparr>\<rparr>"
  have c: "connect io websocket w = (None, w1)"
    using assms(2) by (simp add: connect_eq acc w1_def)
  have b: "loop_body io client_id data w1 =
             broadcast io (chat_message client_id (localtime io e1) data) w1"
    using loop_body_chat [OF assms(1), of io client_id w1] by (simp add: w1_def)
  have "websocket_endpoint io websocket client_id [Text data] w =
          (Active, snd (broadcast io (chat_message client_id (localtime io e1) data) w1))"
    by (simp add: websocket_endpoint_def c serve_def b broadcast_eq)
  then show ?thesis by (simp add: acc w1_def)
qed

lemma receive_loop_counts:
  "length (broadcasts (snd (receive_loop io client_id (map Text frames) w))) =
     length (broadcasts w) + length (filter (\<lambda>d. d \<noteq> ascii ''__ping__'') frames)"
proof (induction frames arbitrary: w)
  case Nil
  show ?case by simp
next
  case (Cons d ds)
  show ?case
  proof (cases "d = ascii ''__ping__''")
    case True
    then show ?thesis by (simp add: loop_body_ping Cons.IH)
  next
    case False
    then show ?thesis by (simp add: loop_body_chat broadcast_eq Cons.IH)
  qed
qed

section \<open>Broadcast\<close>

text \<open>
  C1. For every registry, environment and payload, \<open>broadcast\<close> raises nothing. It
  calls \<open>send_text\<close> once for every member at the start of the call, in order and
  with the payload, each call in the environment the one before has left, whatever
  the outcomes of the earlier ones; the environment it leaves is the one after all
  these calls. The registry it leaves is the one of the start with one entry deleted
  for each call that raised, and nothing else of the state changes but the two
  histories. So the entries left and the failed targets together are the entries of
  the start, every failed target has lost an entry, a handle whose attempts all
  raised is absent afterwards, and in a registry without duplicates the failed
  targets are gone and the others are kept in order.
\<close>

theorem broadcast_isolates_failures:
  "let cs = active_connections (manager w);
       r = broadcast io payload w;
       sent = new_attempts w (snd r);
       cs' = active_connections (manager (snd r))
   in fst r = None
    \<and> env (snd r) = env_after io payload cs (env w)
    \<and> env (snd r) = fold (\<lambda>c e. snd (send_text io c payload e)) cs (env w)
    \<and> length sent = length cs
    \<and> (\<forall>i<length cs.
          sent ! i = (cs ! i, payload,
            fst (send_text io (cs ! i) payload (env_after io payload (take i cs) (env w)))))
    \<and> snd r = w\<lparr>env := env_after io payload cs (env w),
                    broadcasts := broadcasts w @ [payload],
                    attempts := attempts w @ sent,
                    manager := \<lparr>active_connections = cs'\<rparr>\<rparr>
    \<and> attempts (snd r) = attempts w @ sent
    \<and> sent = deliveries io payload cs (env w)
    \<and> map fst sent = cs
    \<and> (\<forall>a\<in>set sent. fst (snd a) = payload)
    \<and> cs' = fold remove1 (failed_targets sent) cs
    \<and> mset cs' + mset (failed_targets sent) = mset cs
    \<and> (\<forall>c\<in>set (failed_targets sent). count_list cs' c < count_list cs c)
    \<and> (\<forall>c. count_list (failed_targets sent) c = count_list cs c \<longrightarrow> c \<notin> set cs')
    \<and> (distinct cs \<longrightarrow> cs' = filter (\<lambda>c. c \<notin> set (failed_targets sent)) cs)"
proof -
  define cs where "cs = active_connections (manager w)"
  define sent where "sent = deliveries io payload cs (env w)"
  define cs' where "cs' = fold remove1 (failed_targets sent) cs"
  have r: "broadcast io payload w =
      (None, w\<lparr>env := env_after io payload cs (env w),
                broadcasts := broadcasts w @ [payload],
                attempts := attempts w @ sent,
                manager := \<lparr>active_connections = cs'\<rparr>\<rparr>)"
    unfolding cs_def sent_def cs'_def by (rule broadcast_eq)
  have n: "new_attempts w (snd (broadcast io payload w)) = sent"
    by (rule new_attempts_append) (simp add: r)
  have f: "env_after io payload cs (env w)
             = fold (\<lambda>c e. snd (send_text io c payload e)) cs (env w)"
    by (rule env_after_fold)
  have l: "length sent = length cs"
    unfolding sent_def by (rule deliveries_length)
  have ith: "\<forall>i<length cs. sent ! i = (cs ! i, payload,
            fst (send_text io (cs ! i) payload (env_after io payload (take i cs) (env w))))"
    unfolding sent_def by (simp add: deliveries_nth)
  have sub: "mset (failed_targets sent) \<subseteq># mset cs"
    unfolding sent_def by (rule failed_targets_subset)
  have m: "mset cs' + mset (failed_targets sent) = mset cs"
    unfolding cs'_def mset_fold_remove1 using sub by (simp add: subset_mset.diff_add)
  have cnt: "count_list cs' c + count_list (failed_targets sent) c = count_list cs c" for c
    using m by (metis count_union count_mset)
  have lt: "count_list cs' c < count_list cs c" if "c \<in> set (failed_targets sent)" for c
  proof -
    have "0 < count_list (failed_targets sent) c"
      using that count_list_0_iff [of "failed_targets sent" c] by arith
    with cnt [of c] show ?thesis by arith
  qed
  have gone: "c \<notin> set cs'" if "count_list (failed_targets sent) c = count_list cs c" for c
  proof -
    have "count_list cs' c = 0" using cnt [of c] that by arith
    then show ?thesis using count_list_0_iff [of cs' c] by blast
  qed
  have d: "cs' = filter (\<lambda>c. c \<notin> set (failed_targets sent)) cs" if "distinct cs"
    unfolding cs'_def using that by (rule fold_remove1_distinct)
  have p: "\<forall>a\<in>set sent. fst (snd a) = payload"
    unfolding sent_def by (auto dest: deliveries_payload)
  have t: "map fst sent = cs" unfolding sent_def by (rule deliveries_targets)
  show ?thesis
    unfolding Let_def n cs_def [symmetric]
    using m lt gone d p t l ith f
    by (simp add: r sent_def [symmetric] cs'_def [symmetric])
qed

theorem broadcast_isolates_failures_witness:
  "distinct (active_connections (manager (hub [1, 2, 3] [2])))
   \<and> failed_targets (new_attempts (hub [1, 2, 3] [2])
        (snd (broadcast closed_io (ascii ''hi'') (hub [1, 2, 3] [2])))) = [2]
   \<and> fst (broadcast closed_io (ascii ''hi'') (hub [1, 2, 3] [2])) = None
   \<and> new_attempts (hub [1, 2, 3] [2])
        (snd (broadcast closed_io (ascii ''hi'') (hub [1, 2, 3] [2])))
       = [(1, ascii ''hi'', None), (2, ascii ''hi'', Some OtherException),
          (3, ascii ''hi'', None)]
   \<and> env (snd (broadcast closed_io (ascii ''hi'') (hub [1, 2, 3] [2])))
       = \<lparr>closed = [2], delivered = [(1, ascii ''hi''), (3, ascii ''hi'')]\<rparr>
   \<and> active_connections (manager (snd (broadcast closed_io (ascii ''hi'') (hub [1, 2, 3] [2]))))
       = [1, 3]"
  using broadcast_isolates_failures [of "hub [1, 2, 3] [2]" closed_io "ascii ''hi''"]
  by (simp add: Let_def hub_simps closed_io_simps failed_targets_def)

text \<open>
  C2. One \<open>broadcast\<close> calls \<open>send_text\<close> on the members at the start of the call,
  in their order: the call number \<open>i\<close> is on the member number \<open>i\<close> of that list, in
  the environment the calls before it have left, and there are as many calls as
  entries. So every entry is attempted once, every handle as often as it is
  registered, and a handle of a registry without duplicates exactly once; this is
  the case in every state the operations reach from the start of the process. The
  loop follows the copy it was given, whatever the live list is and however it
  changes under the removals: it sends to every entry of the copy and deletes from
  the live list.
\<close>

theorem broadcast_iterates_snapshot:
  "let cs = active_connections (manager w);
       r = broadcast io payload w;
       sent = new_attempts w (snd r)
   in sent = deliveries io payload cs (env w)
    \<and> env (snd r) = env_after io payload cs (env w)
    \<and> env (snd r) = fold (\<lambda>c e. snd (send_text io c payload e)) cs (env w)
    \<and> length sent = length cs
    \<and> (\<forall>i<length cs.
          sent ! i = (cs ! i, payload,
            fst (send_text io (cs ! i) payload (env_after io payload (take i cs) (env w)))))
    \<and> map fst sent = cs
    \<and> (\<forall>c. count_list (map fst sent) c = count_list cs c)
    \<and> (distinct cs \<longrightarrow> (\<forall>c\<in>set cs. count_list (map fst sent) c = 1))
    \<and> (\<forall>ops e0. \<forall>c\<in>set (active_connections (manager (run io ops (start e0)))).
          count_list (map fst (new_attempts (run io ops (start e0))
            (snd (broadcast io payload (run io ops (start e0)))))) c = 1)
    \<and> (\<forall>snapshot.
          snd (broadcast_loop io payload snapshot w) =
            w\<lparr>env := env_after io payload snapshot (env w),
               attempts := attempts w @ deliveries io payload snapshot (env w),
               manager := \<lparr>active_connections =
                 fold remove1 (failed_targets (deliveries io payload snapshot (env w)))
                   (active_connections (manager w))\<rparr>\<rparr>
        \<and> map fst (new_attempts w (snd (broadcast_loop io payload snapshot w))) = snapshot)"
proof -
  let ?cs = "active_connections (manager w)"
  let ?r = "broadcast io payload w"
  let ?sent = "new_attempts w (snd ?r)"
  have a: "new_attempts v (snd (broadcast io payload v))
             = deliveries io payload (active_connections (manager v)) (env v)" for v
    by (rule new_attempts_append) (simp add: broadcast_eq)
  have b: "new_attempts w (snd (broadcast_loop io payload snapshot w))
             = deliveries io payload snapshot (env w)" for snapshot
    by (rule new_attempts_append) (simp add: broadcast_loop_eq)
  have c1: "?sent = deliveries io payload ?cs (env w)" by (rule a)
  have c2: "env (snd ?r) = env_after io payload ?cs (env w)"
    by (simp add: broadcast_eq)
  have c3: "env (snd ?r) = fold (\<lambda>c e. snd (send_text io c payload e)) ?cs (env w)"
    unfolding c2 by (rule env_after_fold)
  have c4: "length ?sent = length ?cs"
    unfolding c1 by (rule deliveries_length)
  have c5: "\<forall>i<length ?cs. ?sent ! i = (?cs ! i, payload,
      fst (send_text io (?cs ! i) payload (env_after io payload (take i ?cs) (env w))))"
    unfolding c1 by (simp add: deliveries_nth)
  have c6: "map fst ?sent = ?cs"
    unfolding c1 by (rule deliveries_targets)
  have c7: "\<forall>c. count_list (map fst ?sent) c = count_list ?cs c"
    unfolding c6 by simp
  have c8: "distinct ?cs \<longrightarrow> (\<forall>c\<in>set ?cs. count_list (map fst ?sent) c = 1)"
    unfolding c6 by (simp add: count_list_distinct)
  have c9: "\<forall>ops e0. \<forall>c\<in>set (active_connections (manager (run io ops (start e0)))).
          count_list (map fst (new_attempts (run io ops (start e0))
            (snd (broadcast io payload (run io ops (start e0)))))) c = 1"
  proof (intro allI ballI)
    fix ops e0 c
    assume m: "c \<in> set (active_connections (manager (run io ops (start e0))))"
    have "registry_ok (run io ops (start e0))" by (rule run_ok) (rule start_ok)
    then have "distinct (active_connections (manager (run io ops (start e0))))"
      by (simp add: registry_ok_def)
    with m show "count_list (map fst (new_attempts (run io ops (start e0))
            (snd (broadcast io payload (run io ops (start e0)))))) c = 1"
      unfolding a deliveries_targets by (simp add: count_list_distinct)
  qed
  have c10: "\<forall>snapshot.
          snd (broadcast_loop io payload snapshot w) =
            w\<lparr>env := env_after io payload snapshot (env w),
               attempts := attempts w @ deliveries io payload snapshot (env w),
               manager := \<lparr>active_connections =
                 fold remove1 (failed_targets (deliveries io payload snapshot (env w)))
                   (active_connections (manager w))\<rparr>\<rparr>
        \<and> map fst (new_attempts w (snd (broadcast_loop io payload snapshot w))) = snapshot"
    unfolding b deliveries_targets by (simp add: broadcast_loop_eq)
  show ?thesis
    unfolding Let_def by (intro conjI; fact)
qed

theorem broadcast_iterates_snapshot_witness:
  "distinct (active_connections (manager (hub [1, 2, 3] [1, 2])))
   \<and> new_attempts (hub [1, 2, 3] [1, 2])
        (snd (broadcast closed_io (ascii ''hi'') (hub [1, 2, 3] [1, 2])))
       = [(1, ascii ''hi'', Some OtherException), (2, ascii ''hi'', Some OtherException),
          (3, ascii ''hi'', None)]
   \<and> count_list (map fst (new_attempts (hub [1, 2, 3] [1, 2])
        (snd (broadcast closed_io (ascii ''hi'') (hub [1, 2, 3] [1, 2]))))) 3 = 1
   \<and> env (snd (broadcast closed_io (ascii ''hi'') (hub [1, 2, 3] [1, 2])))
       = \<lparr>closed = [1, 2], delivered = [(3, ascii ''hi'')]\<rparr>
   \<and> active_connections (manager (snd (broadcast closed_io (ascii ''hi'')
        (hub [1, 2, 3] [1, 2])))) = [3]"
  using broadcast_iterates_snapshot [of "hub [1, 2, 3] [1, 2]" closed_io "ascii ''hi''"]
  by (simp add: Let_def hub_simps closed_io_simps broadcast_eq failed_targets_def)

text \<open>
  C9. When no attempt of a \<open>broadcast\<close> raises, the registry after the call is the
  registry before it. In every case the registry after is the registry before with
  one entry deleted per failed attempt: a handle that is no failed target is
  registered as often as before, and no handle is new.
\<close>

theorem broadcast_only_removes_failed:
  "let cs = active_connections (manager w);
       r = broadcast io payload w;
       sent = new_attempts w (snd r);
       cs' = active_connections (manager (snd r))
   in ((\<forall>a\<in>set sent. snd (snd a) = None) \<longrightarrow> manager (snd r) = manager w)
    \<and> cs' = fold remove1 (failed_targets sent) cs
    \<and> (\<forall>c. c \<notin> set (failed_targets sent) \<longrightarrow> count_list cs' c = count_list cs c)
    \<and> set cs' \<subseteq> set cs"
proof -
  have a: "new_attempts w (snd (broadcast io payload w))
             = deliveries io payload (active_connections (manager w)) (env w)"
    by (rule new_attempts_append) (simp add: broadcast_eq)
  show ?thesis
    unfolding Let_def a
    by (simp add: broadcast_eq no_failed_targets count_list_fold_remove1 set_fold_remove1)
qed

theorem broadcast_only_removes_failed_witness:
  "map (\<lambda>a. snd (snd a)) (new_attempts (hub [1, 2, 3] [])
        (snd (broadcast closed_io (ascii ''hi'') (hub [1, 2, 3] [])))) = [None, None, None]
   \<and> manager (snd (broadcast closed_io (ascii ''hi'') (hub [1, 2, 3] [])))
       = manager (hub [1, 2, 3] [])
   \<and> active_connections (manager (snd (broadcast closed_io (ascii ''hi'') (hub [1, 2, 3] [])))) = [1, 2, 3]"
  using broadcast_only_removes_failed [of "hub [1, 2, 3] []" closed_io "ascii ''hi''"]
  by (simp add: Let_def hub_simps closed_io_simps broadcast_eq failed_targets_def new_attempts_def)

section \<open>The registry invariant\<close>

text \<open>
  C3. After every sequence of \<open>Add\<close>, \<open>Remove\<close> and \<open>Broadcast\<close> from the start of
  the process, no handle is registered twice; the same holds from every state in
  which no handle is registered twice and every registered handle has been
  accepted, and such a state is left in such a state. An \<open>Add\<close> of a handle whose
  \<open>Add\<close> has succeeded raises \<open>RuntimeError\<close> in \<open>accept\<close>, before the append, and
  changes nothing; so a handle that is added twice in a row is registered at most
  once.
\<close>

theorem registry_never_duplicates:
  "distinct (active_connections (manager (run io ops (start e))))
   \<and> (registry_ok w \<longrightarrow>
        registry_ok (run io ops w)
      \<and> distinct (active_connections (manager (run io ops w))))
   \<and> (fst (connect io c w) = None \<longrightarrow>
        connect io c (snd (connect io c w)) = (Some RuntimeError, snd (connect io c w)))
   \<and> count_list (active_connections (manager (run io (ops @ [Add c, Add c]) (start e)))) c
        \<le> 1"
proof -
  have ok: "registry_ok (run io xs (start e))" for xs
    by (rule run_ok) (rule start_ok)
  have d: "distinct (active_connections (manager (run io xs (start e))))" for xs
    using ok [of xs] by (simp add: registry_ok_def)
  have g: "registry_ok (run io ops w)
      \<and> distinct (active_connections (manager (run io ops w)))" if "registry_ok w"
    using run_ok [OF that, of io ops] by (simp add: registry_ok_def)
  have a: "connect io c (snd (connect io c w)) = (Some RuntimeError, snd (connect io c w))"
    if "fst (connect io c w) = None"
    using that by (rule connect_again)
  show ?thesis
    using d [of ops] g a count_list_le_1 [OF d [of "ops @ [Add c, Add c]"], of c] by blast
qed

theorem registry_never_duplicates_witness:
  "registry_ok (hub [1, 2] [2])
   \<and> fst (connect closed_io 7 (hub [1, 2] [2])) = None
   \<and> active_connections (manager (run closed_io [Add 7, Add 7] (hub [1, 2] [2]))) = [1, 2, 7]
   \<and> active_connections (manager (run closed_io [Add 7, Add 7]
        (start \<lparr>closed = [], delivered = []\<rparr>))) = [7]
   \<and> active_connections (manager
        (run closed_io [Add 1, Add 2, Broadcast (ascii ''hi''), Remove 1, Add 1, Add 3]
           (start \<lparr>closed = [2], delivered = []\<rparr>))) = [3]
   \<and> distinct (active_connections (manager
        (run closed_io [Add 1, Add 2, Broadcast (ascii ''hi''), Remove 1, Add 1, Add 3]
           (start \<lparr>closed = [2], delivered = []\<rparr>))))"
  using registry_never_duplicates [of closed_io "[Add 7, Add 7]"
      "\<lparr>closed = [], delivered = []\<rparr>" "hub [1, 2] [2]" 7]
    registry_never_duplicates [of closed_io
      "[Add 1, Add 2, Broadcast (ascii ''hi''), Remove 1, Add 1, Add 3]"
      "\<lparr>closed = [2], delivered = []\<rparr>" "hub [1, 2] [2]" 7]
  by (simp add: hub_simps closed_io_simps connect_eq broadcast_eq disconnect_eq
        failed_targets_def registry_ok_def start_def ConnectionManager_init_def)

section \<open>Remove\<close>

text \<open>
  C4. \<open>disconnect\<close> never raises. It deletes the first entry of the handle; when the
  handle is absent the registry is returned as it is; when it is present the
  registry has one entry less, and one entry of the handle less. When the handle was
  registered at most once it is absent afterwards, and a second \<open>disconnect\<close>
  changes nothing and does not raise.
\<close>

theorem disconnect_never_raises:
  "case disconnect c m of
     Inl e \<Rightarrow> False
   | Inr m' \<Rightarrow>
       active_connections m' = remove1 c (active_connections m)
     \<and> (c \<notin> set (active_connections m) \<longrightarrow> m' = m)
     \<and> (c \<in> set (active_connections m) \<longrightarrow>
          length (active_connections m') + 1 = length (active_connections m)
        \<and> count_list (active_connections m') c + 1 = count_list (active_connections m) c)
     \<and> (count_list (active_connections m) c \<le> 1 \<longrightarrow>
          c \<notin> set (active_connections m') \<and> disconnect c m' = Inr m')"
proof -
  let ?cs = "active_connections m"
  have absent: "\<lparr>active_connections = remove1 c ?cs\<rparr> = m" if "c \<notin> set ?cs"
    using that by (simp add: remove1_absent)
  have pos: "0 < count_list ?cs c" if "c \<in> set ?cs"
    using that count_list_0_iff [of ?cs c] by arith
  have present: "length (remove1 c ?cs) + 1 = length ?cs
      \<and> count_list (remove1 c ?cs) c + 1 = count_list ?cs c" if "c \<in> set ?cs"
    using that pos by (simp add: length_remove1_member count_list_remove1)
  have gone: "c \<notin> set (remove1 c ?cs)" if "count_list ?cs c \<le> 1"
  proof -
    have "count_list (remove1 c ?cs) c = 0"
      using that by (simp add: count_list_remove1)
    then show ?thesis using count_list_0_iff [of "remove1 c ?cs" c] by blast
  qed
  have again: "remove1 c (remove1 c ?cs) = remove1 c ?cs" if "count_list ?cs c \<le> 1"
    using gone [OF that] by (rule remove1_absent)
  show ?thesis
    unfolding disconnect_eq sum.case
    using absent present gone again by simp
qed

theorem disconnect_never_raises_witness:
  "2 \<in> set (active_connections \<lparr>active_connections = [1, 2, 3 :: nat]\<rparr>)
   \<and> count_list (active_connections \<lparr>active_connections = [1, 2, 3 :: nat]\<rparr>) 2 \<le> 1
   \<and> disconnect 2 \<lparr>active_connections = [1, 2, 3 :: nat]\<rparr> = Inr \<lparr>active_connections = [1, 3]\<rparr>
   \<and> disconnect 2 \<lparr>active_connections = [1, 3 :: nat]\<rparr> = Inr \<lparr>active_connections = [1, 3]\<rparr>"
  using disconnect_never_raises [of "2 :: nat" "\<lparr>active_connections = [1, 2, 3]\<rparr>"]
  by (simp add: disconnect_eq)

text \<open>
  C10. When a handle is registered twice or more, one \<open>disconnect\<close> deletes exactly
  one of its entries (the first): the handle is still a member, with one entry less,
  and every other handle is registered as often as before.
\<close>

theorem disconnect_duplicate_removes_one:
  "2 \<le> count_list (active_connections m) c \<Longrightarrow>
   (case disconnect c m of
      Inl e \<Rightarrow> False
    | Inr m' \<Rightarrow>
        count_list (active_connections m') c + 1 = count_list (active_connections m) c
      \<and> c \<in> set (active_connections m')
      \<and> (\<forall>d. d \<noteq> c \<longrightarrow> count_list (active_connections m') d = count_list (active_connections m) d)
      \<and> length (active_connections m') + 1 = length (active_connections m)
      \<and> active_connections m' = remove1 c (active_connections m))"
proof -
  assume two: "2 \<le> count_list (active_connections m) c"
  then have mem: "c \<in> set (active_connections m)"
    using count_list_0_iff [of "active_connections m" c] by arith
  have "0 < count_list (remove1 c (active_connections m)) c"
    using two by (simp add: count_list_remove1)
  then have still: "c \<in> set (remove1 c (active_connections m))"
    using count_list_0_iff [of "remove1 c (active_connections m)" c] by arith
  show ?thesis
    using two mem still
    by (simp add: disconnect_eq length_remove1_member count_list_remove1)
qed

theorem disconnect_duplicate_removes_one_witness:
  "2 \<le> count_list (active_connections \<lparr>active_connections = [7, 4, 7, 7 :: nat]\<rparr>) 7
   \<and> disconnect 7 \<lparr>active_connections = [7, 4, 7, 7 :: nat]\<rparr> = Inr \<lparr>active_connections = [4, 7, 7]\<rparr>"
  using disconnect_duplicate_removes_one [of "\<lparr>active_connections = [7, 4, 7, 7 :: nat]\<rparr>" 7]
  by (simp add: disconnect_eq)

section \<open>The receive loop\<close>

text \<open>
  C5. A frame equal to \<open>__ping__\<close> changes nothing: the loop body returns the world
  as it was (the registry, the environment, the history of broadcasts and the
  history of sends), raises nothing, and the loop goes on with the next outcome of
  \<open>receive_text\<close>; after a ping alone the task is suspended in the loop again.
\<close>

theorem ping_is_discarded:
  "loop_body io client_id (ascii ''__ping__'') w = (None, w)
   \<and> receive_loop io client_id (Text (ascii ''__ping__'') # rest) w
       = receive_loop io client_id rest w
   \<and> serve io websocket client_id (Text (ascii ''__ping__'') # rest) w
       = serve io websocket client_id rest w
   \<and> serve io websocket client_id [Text (ascii ''__ping__'')] w = (Active, w)
   \<and> websocket_endpoint io websocket client_id (Text (ascii ''__ping__'') # rest) w
       = websocket_endpoint io websocket client_id rest w"
proof -
  have s: "serve io websocket client_id (Text (ascii ''__ping__'') # rest) w'
             = serve io websocket client_id rest w'" for w'
    by (simp add: loop_body_ping serve_def)
  have e: "websocket_endpoint io websocket client_id (Text (ascii ''__ping__'') # rest) w
             = websocket_endpoint io websocket client_id rest w"
    by (simp add: websocket_endpoint_def s split: prod.splits option.splits)
  have a: "serve io websocket client_id [Text (ascii ''__ping__'')] w = (Active, w)"
    by (simp add: loop_body_ping serve_def)
  show ?thesis
    using s [of w] e a by (simp add: loop_body_ping)
qed

text \<open>
  C6. A text frame other than \<open>__ping__\<close>, the empty string included, makes the loop
  body do exactly one call of \<open>broadcast\<close>, with the chat message of the frame, and
  nothing else: its result and the state it leaves are those of that call, so
  \<open>send_text\<close> is called with the chat message on every member in turn, the
  environment is the one after these calls, and the loop goes on. The chat message
  is the JSON object with the keys \<open>client_id\<close>, \<open>timestamp\<close> and \<open>message\<close> in this
  order: the identifier in decimal, which reads back as the identifier; the local
  time of the moment as \<open>HH:MM\<close>, two digits each; and the frame as a JSON string,
  which reads back as the frame, whatever its length, when the frame holds scalar
  values only, and is the frame itself between quotes when all its characters are
  printable ASCII other than quote and backslash. Over any run of text frames, the
  number of broadcasts is the number of frames that are not \<open>__ping__\<close>.
\<close>

theorem text_frame_is_broadcast_once:
  "data \<noteq> ascii ''__ping__'' \<Longrightarrow>
   (let t = localtime io (env w);
        payload = chat_message client_id t data;
        cs = active_connections (manager w);
        r = loop_body io client_id data w
    in fst r = None
     \<and> r = broadcast io payload w
     \<and> snd r = w\<lparr>env := env_after io payload cs (env w),
                     broadcasts := broadcasts w @ [payload],
                     attempts := attempts w @ deliveries io payload cs (env w),
                     manager := \<lparr>active_connections =
                       fold remove1 (failed_targets (deliveries io payload cs (env w))) cs\<rparr>\<rparr>
     \<and> env (snd r) = env_after io payload cs (env w)
     \<and> env (snd r) = fold (\<lambda>c e. snd (send_text io c payload e)) cs (env w)
     \<and> (\<forall>i<length cs.
           new_attempts w (snd r) ! i = (cs ! i, payload,
             fst (send_text io (cs ! i) payload (env_after io payload (take i cs) (env w)))))
     \<and> broadcasts (snd r) = broadcasts w @ [payload]
     \<and> new_attempts w (snd r) = deliveries io payload (active_connections (manager w)) (env w)
     \<and> receive_loop io client_id (Text data # rest) w = receive_loop io client_id rest (snd r)
     \<and> payload =
          ascii ''{'' @ [34] @ ascii ''client_id'' @ [34] @ ascii '': '' @ int_repr client_id @
          ascii '', '' @ [34] @ ascii ''timestamp'' @ [34] @ ascii '': '' @
            [34] @ strftime_HM t @ [34] @
          ascii '', '' @ [34] @ ascii ''message'' @ [34] @ ascii '': '' @
            encode_basestring_ascii data @ ascii ''}''
     \<and> int_of_repr (int_repr client_id) = client_id
     \<and> (tm_hour t < 24 \<and> tm_min t < 60 \<longrightarrow>
          strftime_HM t = [48 + tm_hour t div 10, 48 + tm_hour t mod 10, 58,
                           48 + tm_min t div 10, 48 + tm_min t mod 10])
     \<and> ((\<forall>c\<in>set data. scalar c) \<longrightarrow>
          scanstring (tl (encode_basestring_ascii data) @ ascii ''}'') = Some (data, ascii ''}''))
     \<and> ((\<forall>c\<in>set data. plain c) \<longrightarrow> encode_basestring_ascii data = [34] @ data @ [34])
     \<and> (\<forall>frames.
           length (broadcasts (snd (receive_loop io client_id (map Text frames) w))) =
             length (broadcasts w) + length (filter (\<lambda>d. d \<noteq> ascii ''__ping__'') frames)))"
proof -
  assume chat: "data \<noteq> ascii ''__ping__''"
  let ?t = "localtime io (env w)"
  let ?p = "chat_message client_id ?t data"
  let ?cs = "active_connections (manager w)"
  let ?r = "loop_body io client_id data w"
  have c1: "fst ?r = None"
    by (rule loop_body_no_raise)
  have c2: "?r = broadcast io ?p w"
    using chat by (rule loop_body_chat)
  have c3: "snd ?r = w\<lparr>env := env_after io ?p ?cs (env w),
                     broadcasts := broadcasts w @ [?p],
                     attempts := attempts w @ deliveries io ?p ?cs (env w),
                     manager := \<lparr>active_connections =
                       fold remove1 (failed_targets (deliveries io ?p ?cs (env w))) ?cs\<rparr>\<rparr>"
    unfolding c2 by (simp add: broadcast_eq)
  have c4: "env (snd ?r) = env_after io ?p ?cs (env w)"
    unfolding c3 by simp
  have c5: "env (snd ?r) = fold (\<lambda>c e. snd (send_text io c ?p e)) ?cs (env w)"
    unfolding c4 by (rule env_after_fold)
  have c8: "new_attempts w (snd ?r) = deliveries io ?p ?cs (env w)"
    using chat by (rule loop_body_attempts)
  have c6: "\<forall>i<length ?cs.
           new_attempts w (snd ?r) ! i = (?cs ! i, ?p,
             fst (send_text io (?cs ! i) ?p (env_after io ?p (take i ?cs) (env w))))"
    unfolding c8 by (simp add: deliveries_nth)
  have c7: "broadcasts (snd ?r) = broadcasts w @ [?p]"
    unfolding c3 by simp
  have c9: "receive_loop io client_id (Text data # rest) w
             = receive_loop io client_id rest (snd ?r)"
    using c1 by (cases ?r) simp
  have c10: "?p =
          ascii ''{'' @ [34] @ ascii ''client_id'' @ [34] @ ascii '': '' @ int_repr client_id @
          ascii '', '' @ [34] @ ascii ''timestamp'' @ [34] @ ascii '': '' @
            [34] @ strftime_HM ?t @ [34] @
          ascii '', '' @ [34] @ ascii ''message'' @ [34] @ ascii '': '' @
            encode_basestring_ascii data @ ascii ''}''"
    by (rule chat_message_layout)
  have c11: "int_of_repr (int_repr client_id) = client_id"
    by (rule int_of_repr_int_repr)
  have c12: "tm_hour ?t < 24 \<and> tm_min ?t < 60 \<longrightarrow>
          strftime_HM ?t = [48 + tm_hour ?t div 10, 48 + tm_hour ?t mod 10, 58,
                           48 + tm_min ?t div 10, 48 + tm_min ?t mod 10]"
    by (simp add: strftime_HM_def pad2_two_digits ascii_def)
  have c13: "(\<forall>c\<in>set data. scalar c) \<longrightarrow>
          scanstring (tl (encode_basestring_ascii data) @ ascii ''}'') = Some (data, ascii ''}'')"
    using scan_encoded [of data "ascii ''}''"] by blast
  have c14: "(\<forall>c\<in>set data. plain c) \<longrightarrow> encode_basestring_ascii data = [34] @ data @ [34]"
    using encode_plain [of data] by blast
  have c15: "\<forall>frames.
           length (broadcasts (snd (receive_loop io client_id (map Text frames) w))) =
             length (broadcasts w) + length (filter (\<lambda>d. d \<noteq> ascii ''__ping__'') frames)"
    by (simp add: receive_loop_counts)
  show ?thesis
    unfolding Let_def by (intro conjI; fact)
qed

theorem text_frame_is_broadcast_once_witness:
  "[] \<noteq> ascii ''__ping__'' \<and> ascii ''hi'' \<noteq> ascii ''__ping__''
   \<and> tm_hour (localtime closed_io (env (hub [1, 2] []))) < 24
   \<and> tm_min (localtime closed_io (env (hub [1, 2] []))) < 60
   \<and> list_all scalar (ascii ''hi'') \<and> list_all plain (ascii ''hi'')
   \<and> fst (loop_body closed_io 17 [] (hub [1, 2] [])) = None
   \<and> broadcasts (snd (loop_body closed_io 17 [] (hub [1, 2] []))) =
       [ascii ''{'' @ [34] @ ascii ''client_id'' @ [34] @ ascii '': 17, '' @
        [34] @ ascii ''timestamp'' @ [34] @ ascii '': '' @ [34] @ ascii ''09:05'' @ [34] @
        ascii '', '' @ [34] @ ascii ''message'' @ [34] @ ascii '': '' @ [34, 34] @ ascii ''}'']
   \<and> delivered (env (snd (loop_body closed_io 17 [] (hub [1, 2] [])))) =
       [(1, ascii ''{'' @ [34] @ ascii ''client_id'' @ [34] @ ascii '': 17, '' @
            [34] @ ascii ''timestamp'' @ [34] @ ascii '': '' @ [34] @ ascii ''09:05'' @ [34] @
            ascii '', '' @ [34] @ ascii ''message'' @ [34] @ ascii '': '' @ [34, 34] @
            ascii ''}''),
        (2, ascii ''{'' @ [34] @ ascii ''client_id'' @ [34] @ ascii '': 17, '' @
            [34] @ ascii ''timestamp'' @ [34] @ ascii '': '' @ [34] @ ascii ''09:05'' @ [34] @
            ascii '', '' @ [34] @ ascii ''message'' @ [34] @ ascii '': '' @ [34, 34] @
            ascii ''}'')]
   \<and> broadcasts (snd (loop_body closed_io 17 (ascii ''hi'') (hub [1, 2] []))) =
       [ascii ''{'' @ [34] @ ascii ''client_id'' @ [34] @ ascii '': 17, '' @
        [34] @ ascii ''timestamp'' @ [34] @ ascii '': '' @ [34] @ ascii ''09:05'' @ [34] @
        ascii '', '' @ [34] @ ascii ''message'' @ [34] @ ascii '': '' @
        [34] @ ascii ''hi'' @ [34] @ ascii ''}'']
   \<and> scanstring (tl (encode_basestring_ascii (ascii ''hi'')) @ ascii ''}'')
       = Some (ascii ''hi'', ascii ''}'')
   \<and> map fst (new_attempts (hub [1, 2] []) (snd (loop_body closed_io 17 [] (hub [1, 2] []))))
       = [1, 2]"
  using text_frame_is_broadcast_once [of "[]" closed_io "hub [1, 2] []" 17 "[]"]
    text_frame_is_broadcast_once [of "ascii ''hi''" closed_io "hub [1, 2] []" 17 "[]"]
  by (simp add: Let_def ascii_def closed_io_simps hub_simps deliveries_targets
        int_repr_def digits10.simps encode_basestring_ascii_def scalar_def plain_def
        broadcast_eq failed_targets_def new_attempts_def)

text \<open>
  C7. For a chat message \<open>send_text\<close> is called with the same payload on every member
  of the registry at that moment, in order, each call in the environment the one
  before has left; nothing looks at who sent the frame. So a sender that is a member
  is sent its own message, as often as it is registered, and the outcome is what
  \<open>send_text\<close> gives on its handle. The first message of a connection that has
  just been accepted is sent to the earlier members and then to the connection
  itself.
\<close>

theorem sender_receives_own_message:
  "data \<noteq> ascii ''__ping__'' \<Longrightarrow>
     (websocket \<in> set (active_connections (manager w)) \<longrightarrow>
       (let payload = chat_message client_id (localtime io (env w)) data;
            cs = active_connections (manager w);
            r = loop_body io client_id data w;
            sent = new_attempts w (snd r)
        in r = broadcast io payload w
         \<and> sent = deliveries io payload cs (env w)
         \<and> env (snd r) = env_after io payload cs (env w)
         \<and> env (snd r) = fold (\<lambda>c e. snd (send_text io c payload e)) cs (env w)
         \<and> (\<forall>i<length cs. cs ! i = websocket \<longrightarrow>
               sent ! i = (websocket, payload,
                 fst (send_text io websocket payload
                        (env_after io payload (take i cs) (env w)))))
         \<and> (\<exists>i<length cs. cs ! i = websocket)
         \<and> map fst sent = cs
         \<and> (\<forall>a\<in>set sent. fst (snd a) = payload)
         \<and> (\<exists>r. (websocket, payload, r) \<in> set sent)
         \<and> count_list (map fst sent) websocket = count_list cs websocket))
   \<and> (websocket \<notin> set (accepted w) \<and> fst (accept io websocket (env w)) = None \<longrightarrow>
       (let e1 = snd (accept io websocket (env w));
            payload = chat_message client_id (localtime io e1) data;
            cs = active_connections (manager w) @ [websocket];
            r = websocket_endpoint io websocket client_id [Text data] w
        in fst r = Active
         \<and> snd r = snd (broadcast io payload
               (w\<lparr>env := e1, accepted := accepted w @ [websocket],
                   manager := \<lparr>active_connections = cs\<rparr>\<rparr>))
         \<and> new_attempts w (snd r) = deliveries io payload cs e1
         \<and> env (snd r) = env_after io payload cs e1
         \<and> map fst (new_attempts w (snd r)) = cs
         \<and> new_attempts w (snd r) ! length (active_connections (manager w)) =
               (websocket, payload,
                fst (send_text io websocket payload
                  (env_after io payload (active_connections (manager w)) e1)))))"
  (is "_ \<Longrightarrow> ?A \<and> ?B")
proof -
  assume chat: "data \<noteq> ascii ''__ping__''"
  let ?p = "chat_message client_id (localtime io (env w)) data"
  let ?cs = "active_connections (manager w)"
  let ?r = "loop_body io client_id data w"
  let ?sent = "new_attempts w (snd ?r)"
  have c1: "?r = broadcast io ?p w"
    using chat by (rule loop_body_chat)
  have c2: "?sent = deliveries io ?p ?cs (env w)"
    using chat by (rule loop_body_attempts)
  have c3: "env (snd ?r) = env_after io ?p ?cs (env w)"
    unfolding c1 by (simp add: broadcast_eq)
  have c4: "env (snd ?r) = fold (\<lambda>c e. snd (send_text io c ?p e)) ?cs (env w)"
    unfolding c3 by (rule env_after_fold)
  have c5: "\<forall>i<length ?cs. ?cs ! i = websocket \<longrightarrow>
               ?sent ! i = (websocket, ?p,
                 fst (send_text io websocket ?p (env_after io ?p (take i ?cs) (env w))))"
    unfolding c2 by (auto simp: deliveries_nth)
  have c6: "\<exists>i<length ?cs. ?cs ! i = websocket" if "websocket \<in> set ?cs"
    using that by (simp add: in_set_conv_nth)
  have c7: "map fst ?sent = ?cs"
    unfolding c2 by (rule deliveries_targets)
  have c8: "\<forall>a\<in>set ?sent. fst (snd a) = ?p"
    unfolding c2 by (auto dest: deliveries_payload)
  have c9: "\<exists>r. (websocket, ?p, r) \<in> set ?sent" if "websocket \<in> set ?cs"
    unfolding c2 using that by (rule deliveries_member)
  have c10: "count_list (map fst ?sent) websocket = count_list ?cs websocket"
    unfolding c7 by simp
  have A: ?A
  proof
    assume m: "websocket \<in> set ?cs"
    note m6 = c6 [OF m] and m9 = c9 [OF m]
    show "let payload = ?p; cs = ?cs; r = ?r; sent = new_attempts w (snd r)
        in r = broadcast io payload w
         \<and> sent = deliveries io payload cs (env w)
         \<and> env (snd r) = env_after io payload cs (env w)
         \<and> env (snd r) = fold (\<lambda>c e. snd (send_text io c payload e)) cs (env w)
         \<and> (\<forall>i<length cs. cs ! i = websocket \<longrightarrow>
               sent ! i = (websocket, payload,
                 fst (send_text io websocket payload
                        (env_after io payload (take i cs) (env w)))))
         \<and> (\<exists>i<length cs. cs ! i = websocket)
         \<and> map fst sent = cs
         \<and> (\<forall>a\<in>set sent. fst (snd a) = payload)
         \<and> (\<exists>r. (websocket, payload, r) \<in> set sent)
         \<and> count_list (map fst sent) websocket = count_list cs websocket"
      unfolding Let_def by (intro conjI; fact)
  qed
  let ?e1 = "snd (accept io websocket (env w))"
  let ?p1 = "chat_message client_id (localtime io ?e1) data"
  let ?cs1 = "?cs @ [websocket]"
  let ?r1 = "websocket_endpoint io websocket client_id [Text data] w"
  let ?w1 = "w\<lparr>env := ?e1, accepted := accepted w @ [websocket],
                manager := \<lparr>active_connections = ?cs1\<rparr>\<rparr>"
  have B: ?B
  proof
    assume "websocket \<notin> set (accepted w) \<and> fst (accept io websocket (env w)) = None"
    then have e: "?r1 = (Active, snd (broadcast io ?p1 ?w1))"
      using first_message [OF chat, of websocket w io client_id] by simp
    have d1: "fst ?r1 = Active"
      unfolding e by simp
    have d0: "snd ?r1 = snd (broadcast io ?p1 ?w1)"
      unfolding e by simp
    have d2: "new_attempts w (snd ?r1) = deliveries io ?p1 ?cs1 ?e1"
      by (rule new_attempts_append) (simp add: e broadcast_eq)
    have d3: "env (snd ?r1) = env_after io ?p1 ?cs1 ?e1"
      by (simp add: e broadcast_eq)
    have d4: "map fst (new_attempts w (snd ?r1)) = ?cs1"
      unfolding d2 by (rule deliveries_targets)
    have d5: "new_attempts w (snd ?r1) ! length ?cs =
               (websocket, ?p1, fst (send_text io websocket ?p1 (env_after io ?p1 ?cs ?e1)))"
      unfolding d2 using deliveries_nth [of "length ?cs" ?cs1 io ?p1 ?e1] by simp
    show "let e1 = ?e1; payload = chat_message client_id (localtime io e1) data;
            cs = ?cs @ [websocket]; r = ?r1
        in fst r = Active
         \<and> snd r = snd (broadcast io payload
               (w\<lparr>env := e1, accepted := accepted w @ [websocket],
                   manager := \<lparr>active_connections = cs\<rparr>\<rparr>))
         \<and> new_attempts w (snd r) = deliveries io payload cs e1
         \<and> env (snd r) = env_after io payload cs e1
         \<and> map fst (new_attempts w (snd r)) = cs
         \<and> new_attempts w (snd r) ! length (active_connections (manager w)) =
               (websocket, payload,
                fst (send_text io websocket payload
                  (env_after io payload (active_connections (manager w)) e1)))"
      unfolding Let_def by (intro conjI; fact)
  qed
  show ?thesis using A B by (rule conjI)
qed

theorem sender_receives_own_message_witness:
  "ascii ''hello'' \<noteq> ascii ''__ping__''
   \<and> 1 \<in> set (active_connections (manager (hub [1, 2] [])))
   \<and> 3 \<notin> set (accepted (hub [1, 2] []))
   \<and> fst (accept closed_io 3 (env (hub [1, 2] []))) = None
   \<and> new_attempts (hub [1, 2] []) (snd (loop_body closed_io 1 (ascii ''hello'') (hub [1, 2] [])))
       = [(1, chat_message 1 \<lparr>tm_hour = 9, tm_min = 5\<rparr> (ascii ''hello''), None),
          (2, chat_message 1 \<lparr>tm_hour = 9, tm_min = 5\<rparr> (ascii ''hello''), None)]
   \<and> delivered (env (snd (loop_body closed_io 1 (ascii ''hello'') (hub [1, 2] []))))
       = [(1, chat_message 1 \<lparr>tm_hour = 9, tm_min = 5\<rparr> (ascii ''hello'')),
          (2, chat_message 1 \<lparr>tm_hour = 9, tm_min = 5\<rparr> (ascii ''hello''))]
   \<and> delivered (env (snd
         (websocket_endpoint closed_io 3 3 [Text (ascii ''hello'')] (hub [1, 2] []))))
       = [(1, chat_message 3 \<lparr>tm_hour = 9, tm_min = 5\<rparr> (ascii ''hello'')),
          (2, chat_message 3 \<lparr>tm_hour = 9, tm_min = 5\<rparr> (ascii ''hello'')),
          (3, chat_message 3 \<lparr>tm_hour = 9, tm_min = 5\<rparr> (ascii ''hello''))]"
  using sender_receives_own_message [of "ascii ''hello''" 1 "hub [1, 2] []" 1 closed_io]
    sender_receives_own_message [of "ascii ''hello''" 3 "hub [1, 2] []" 3 closed_io]
  by (simp add: Let_def ascii_def hub_simps closed_io_simps loop_body_def chat_message_def
        broadcast_eq websocket_endpoint_def connect_eq serve_def)

text \<open>
  C8. When \<open>receive_text\<close> raises, whatever the exception, the endpoint returns; the
  registry it leaves is the one of that moment without the first entry of the
  handle, which is one entry less when the handle is registered; the environment
  and the histories of broadcasts and sends are as they were, so nothing is
  broadcast; a \<open>WebSocketDisconnect\<close> and any other exception leave the same
  result, and the outcomes behind the exception are not read. The same holds after
  any number of text frames.
\<close>

theorem disconnect_cleanup:
  "let r = serve io websocket client_id (Raises e # rest) w;
       cs = active_connections (manager w);
       cs' = active_connections (manager (snd r))
   in fst r = Returned
    \<and> cs' = remove1 websocket cs
    \<and> (websocket \<in> set cs \<longrightarrow> length cs' + 1 = length cs)
    \<and> broadcasts (snd r) = broadcasts w
    \<and> attempts (snd r) = attempts w
    \<and> env (snd r) = env w
    \<and> r = serve io websocket client_id [Raises WebSocketDisconnect] w
    \<and> r = serve io websocket client_id [Raises OtherException] w
    \<and> (\<forall>frames.
          serve io websocket client_id (map Text frames @ Raises e # rest) w =
            serve io websocket client_id [Raises e]
              (snd (receive_loop io client_id (map Text frames) w)))"
proof -
  have frames: "serve io websocket client_id (map Text frames @ Raises e # rest) w =
            serve io websocket client_id [Raises e]
              (snd (receive_loop io client_id (map Text frames) w))" for frames
    unfolding serve_def
    by (subst conjunct1 [OF receive_loop_frames]) simp
  show ?thesis
    unfolding Let_def serve_raises
    using frames by (simp add: length_remove1_member serve_raises)
qed

theorem disconnect_cleanup_witness:
  "fst (accept closed_io 4 (env (hub [1, 2, 3] []))) = None
   \<and> websocket_endpoint closed_io 4 17 [Raises WebSocketDisconnect] (hub [1, 2, 3] [])
       = (Returned, (hub [1, 2, 3] [])\<lparr>accepted := [1, 2, 3, 4]\<rparr>)
   \<and> 4 \<in> set (active_connections (manager (snd (connect closed_io 4 (hub [1, 2, 3] [])))))
   \<and> length (active_connections (manager (snd
        (serve closed_io 4 17 [Raises WebSocketDisconnect]
           (snd (connect closed_io 4 (hub [1, 2, 3] [])))))))  + 1
       = length (active_connections (manager (snd (connect closed_io 4 (hub [1, 2, 3] [])))))"
  using disconnect_cleanup [of closed_io 4 17 WebSocketDisconnect "[]"
      "snd (connect closed_io 4 (hub [1, 2, 3] []))"]
  by (simp add: Let_def websocket_endpoint_def connect_eq closed_io_simps hub_simps serve_raises)

end
